theory Spec2Isabelle
  imports Main "HOL-Library.Word" "HOL-Library.Finite_Map"
begin

section \<open>The DynamoDB helper of aws-sdk-go-wrapper (dynamodb/helper.go)\<close>

text \<open>
  The helper converts between Go values held in an \<^verbatim>\<open>interface{}\<close> and the SDK's
  \<^verbatim>\<open>AttributeValue\<close> struct. The embedding below follows helper.go function by
  function. Conventions:
  \<^item> a Go pointer is an \<open>option\<close> (\<open>None\<close> is nil), a slice is a list (a nil slice and an
    empty slice are both \<open>[]\<close>: the code only ever takes \<^verbatim>\<open>len\<close> of them), a Go map is a
    finite map (a nil map and an empty map are both \<open>fmempty\<close>);
  \<^item> a run-time panic is a value: every function that can panic returns \<open>panic + 'a\<close>;
  \<^item> Go's \<^verbatim>\<open>int\<close> and \<^verbatim>\<open>uint\<close> are taken to be 64 bits wide.
\<close>

type_synonym byte = "8 word"

datatype panic =
    NilPointerDereference   \<comment> \<open>reading a field through a nil pointer, or \<^verbatim>\<open>*p\<close> with p nil\<close>
  | InterfaceConversion     \<comment> \<open>a failed single-valued type assertion \<^verbatim>\<open>v.(T)\<close>\<close>
  | IndexOutOfRange         \<comment> \<open>\<^verbatim>\<open>xs[i]\<close> with i \<ge> len(xs)\<close>

subsection \<open>Go values behind \<^verbatim>\<open>interface{}\<close>\<close>

text \<open>The kinds of package reflect.\<close>

datatype Kind =
    KInvalid | KBool | KInt | KInt8 | KInt16 | KInt32 | KInt64
  | KUint | KUint8 | KUint16 | KUint32 | KUint64 | KUintptr
  | KFloat32 | KFloat64 | KComplex64 | KComplex128
  | KArray | KChan | KFunc | KInterface | KMap | KPtr | KSlice | KString | KStruct
  | KUnsafePointer

text \<open>
  The eight numeric types that the type switch of \<^verbatim>\<open>createAttributeValue\<close> names. A
  floating-point number is carried as its IEEE bit pattern; nothing below computes with it.
\<close>

datatype number =
    NInt "64 word" | NInt32 "32 word" | NInt64 "64 word"
  | NUint "64 word" | NUint32 "32 word" | NUint64 "64 word"
  | NFloat32 "32 word" | NFloat64 "64 word"

text \<open>The eight slice types over them.\<close>

datatype numbers =
    SInt "64 word list" | SInt32 "32 word list" | SInt64 "64 word list"
  | SUint "64 word list" | SUint32 "32 word list" | SUint64 "64 word list"
  | SFloat32 "32 word list" | SFloat64 "64 word list"

text \<open>
  \<^verbatim>\<open>type Any interface{}\<close>. The constructors are the dynamic types that helper.go tells
  apart or produces: \<open>VNil\<close> is the nil interface, \<open>VMap\<close> is \<^verbatim>\<open>map[string]interface{}\<close>,
  \<open>VIntPtrs\<close> is \<^verbatim>\<open>[]*int\<close>, \<open>VStringPtrs\<close> is \<^verbatim>\<open>[]*string\<close> and \<open>VSlice\<close> is
  \<^verbatim>\<open>[]interface{}\<close> (the last three are results of \<^verbatim>\<open>getItemValue\<close>). \<open>VOther k\<close> stands
  for a value of any other dynamic type, of reflect kind \<open>k\<close>: a channel, a function, a struct,
  an \<^verbatim>\<open>int8\<close>, a \<^verbatim>\<open>map[string]string\<close>, a value of a named type such as
  \<^verbatim>\<open>type T string\<close>. The code never looks inside such a value.
\<close>

datatype Any =
    VNil
  | VString string
  | VNumber number
  | VBytes "byte list"
  | VBool bool
  | VStrings "string list"
  | VByteSlices "byte list list"
  | VNumbers numbers
  | VMap "(string, Any) fmap"
  | VIntPtrs "64 word option list"
  | VStringPtrs "string option list"
  | VSlice "Any list"
  | VOther Kind

text \<open>\<^verbatim>\<open>reflect.ValueOf(v).Kind()\<close>; the zero Value of a nil interface has kind Invalid.\<close>

fun Kind_of_number :: "number \<Rightarrow> Kind" where
  "Kind_of_number (NInt _) = KInt"
| "Kind_of_number (NInt32 _) = KInt32"
| "Kind_of_number (NInt64 _) = KInt64"
| "Kind_of_number (NUint _) = KUint"
| "Kind_of_number (NUint32 _) = KUint32"
| "Kind_of_number (NUint64 _) = KUint64"
| "Kind_of_number (NFloat32 _) = KFloat32"
| "Kind_of_number (NFloat64 _) = KFloat64"

fun Kind_of :: "Any \<Rightarrow> Kind" where
  "Kind_of VNil = KInvalid"
| "Kind_of (VString _) = KString"
| "Kind_of (VNumber n) = Kind_of_number n"
| "Kind_of (VBytes _) = KSlice"
| "Kind_of (VBool _) = KBool"
| "Kind_of (VStrings _) = KSlice"
| "Kind_of (VByteSlices _) = KSlice"
| "Kind_of (VNumbers _) = KSlice"
| "Kind_of (VMap _) = KMap"
| "Kind_of (VIntPtrs _) = KSlice"
| "Kind_of (VStringPtrs _) = KSlice"
| "Kind_of (VSlice _) = KSlice"
| "Kind_of (VOther k) = k"

text \<open>The type assertion \<^verbatim>\<open>v.(map[string]interface{})\<close>: it panics on every other type.\<close>

fun assert_map :: "Any \<Rightarrow> panic + (string, Any) fmap" where
  "assert_map (VMap m) = Inr m"
| "assert_map _ = Inl InterfaceConversion"

text \<open>The elements of a numeric slice, each boxed as \<^verbatim>\<open>val.Index(i).Interface()\<close> does.\<close>

fun elems :: "numbers \<Rightarrow> number list" where
  "elems (SInt xs) = map NInt xs"
| "elems (SInt32 xs) = map NInt32 xs"
| "elems (SInt64 xs) = map NInt64 xs"
| "elems (SUint xs) = map NUint xs"
| "elems (SUint32 xs) = map NUint32 xs"
| "elems (SUint64 xs) = map NUint64 xs"
| "elems (SFloat32 xs) = map NFloat32 xs"
| "elems (SFloat64 xs) = map NFloat64 xs"

subsection \<open>The SDK's AttributeValue\<close>

text \<open>
  The struct is declared in the SDK (github.com/awslabs/aws-sdk-go/service/dynamodb), not in
  this repository. Its fields are taken from the uses in helper.go: \<^verbatim>\<open>N, S *string\<close>,
  \<^verbatim>\<open>BOOL *bool\<close>, \<^verbatim>\<open>B []byte\<close>, \<^verbatim>\<open>M *map[string]*AttributeValue\<close>,
  \<^verbatim>\<open>NS, SS []*string\<close>, \<^verbatim>\<open>BS [][]byte\<close>, \<^verbatim>\<open>L []*AttributeValue\<close>. (The SDK's
  \<^verbatim>\<open>NULL\<close> field is never read or written by helper.go and is left out.) The constructor
  takes the fields in the order N, S, BOOL, B, M, NS, SS, BS, L, the order in which
  \<^verbatim>\<open>getItemValue\<close> tests them.
\<close>

datatype AttributeValue = AttributeValue
  (N: "string option")
  (S: "string option")
  (BOOL: "bool option")
  (B: "byte list")
  (M: "(string, AttributeValue option) fmap option")
  (NS: "string option list")
  (SS: "string option list")
  (BS: "byte list list")
  (L: "AttributeValue option list")

text \<open>\<^verbatim>\<open>SDK.AttributeValue{}\<close>: every field at its zero value.\<close>

definition unset :: AttributeValue where
  "unset = AttributeValue None None None [] None [] [] [] []"

text \<open>\<^verbatim>\<open>len(m)\<close> of a map.\<close>

definition len_map :: "('k, 'v) fmap \<Rightarrow> nat" where
  "len_map m = fcard (fmdom m)"

subsection \<open>strconv.Atoi and fmt.Sprint on integers (Go standard library)\<close>

text \<open>
  Both are library functions. \<^verbatim>\<open>strconv.Atoi(s)\<close> is \<^verbatim>\<open>ParseInt(s, 10, 0)\<close>: an
  optional sign, then \<^verbatim>\<open>ParseUint\<close> on the rest. On a syntax error the value is 0; on
  a range error it is the nearest bound of \<^verbatim>\<open>int\<close>; the error comes back beside the value.
  \<^verbatim>\<open>ParseUint\<close> reads the digits from the left and stops at the first problem, so an
  overflow before a bad character is a range error. The accumulator is a \<^verbatim>\<open>uint64\<close>; the
  model keeps it a \<open>nat\<close> and makes the same two checks (\<open>n \<ge> cutoff\<close> before the
  multiplication, \<open>n1 > maxVal\<close> after the addition, which is also where the Go code
  catches the wrap-around).
\<close>

datatype NumError = ErrSyntax | ErrRange

definition maxVal :: nat where
  "maxVal = 2 ^ 64 - 1"

definition cutoff :: nat where
  "cutoff = maxVal div 10 + 1"

definition is_digit :: "char \<Rightarrow> bool" where
  "is_digit d \<longleftrightarrow> 48 \<le> (of_char d :: nat) \<and> (of_char d :: nat) \<le> 57"

definition digit_val :: "char \<Rightarrow> nat" where
  "digit_val d = of_char d - 48"

fun ParseUint_loop :: "nat \<Rightarrow> string \<Rightarrow> NumError + nat" where
  "ParseUint_loop n [] = Inr n"
| "ParseUint_loop n (d # s) =
     (if \<not> is_digit d then Inl ErrSyntax
      else if n \<ge> cutoff then Inl ErrRange
      else let n1 = n * 10 + digit_val d in
        if n1 > maxVal then Inl ErrRange
        else ParseUint_loop n1 s)"

definition ParseUint :: "string \<Rightarrow> nat \<times> NumError option" where
  "ParseUint s =
     (if s = [] then (0, Some ErrSyntax)
      else case ParseUint_loop 0 s of
             Inl ErrSyntax \<Rightarrow> (0, Some ErrSyntax)
           | Inl ErrRange \<Rightarrow> (maxVal, Some ErrRange)
           | Inr n \<Rightarrow> (n, None))"

definition ParseInt :: "string \<Rightarrow> int \<times> NumError option" where
  "ParseInt s =
     (if s = [] then (0, Some ErrSyntax)
      else
        let neg = (hd s = CHR ''-'');
            s1 = (if hd s = CHR ''+'' \<or> hd s = CHR ''-'' then tl s else s);
            (un, err) = ParseUint s1
        in if err = Some ErrSyntax then (0, err)
           else if \<not> neg \<and> un \<ge> 2 ^ 63 then (2 ^ 63 - 1, Some ErrRange)
           else if neg \<and> un > 2 ^ 63 then (- (2 ^ 63), Some ErrRange)
           else (if neg then - int un else int un, None))"

definition Atoi :: "string \<Rightarrow> 64 word \<times> NumError option" where
  "Atoi s = (let (i64, err) = ParseInt s in (word_of_int i64, err))"

text \<open>
  \<^verbatim>\<open>fmt.Sprint\<close> of an integer prints it in decimal, with a minus sign when negative;
  the digits come from the table \<^verbatim>\<open>"0123456789"\<close>, and \<open>digit_char\<close> is only applied below 10.
  Its output on a float (the shortest \<^verbatim>\<open>%v\<close> text) is not modelled: the functions below
  take it as the parameter \<open>ff\<close>, which is only ever applied to \<open>NFloat32\<close> and \<open>NFloat64\<close>.
\<close>

definition digit_char :: "nat \<Rightarrow> char" where
  "digit_char d = ''0123456789'' ! d"

function digits :: "nat \<Rightarrow> string" where
  "digits n = (if n < 10 then [digit_char n] else digits (n div 10) @ [digit_char (n mod 10)])"
  by pat_completeness auto
termination
  by (relation "measure id") auto

declare digits.simps [simp del]

definition FormatInt :: "int \<Rightarrow> string" where
  "FormatInt i = (if i < 0 then CHR ''-'' # digits (nat (- i)) else digits (nat i))"

fun Sprint :: "(number \<Rightarrow> string) \<Rightarrow> number \<Rightarrow> string" where
  "Sprint ff (NInt w) = FormatInt (sint w)"
| "Sprint ff (NInt32 w) = FormatInt (sint w)"
| "Sprint ff (NInt64 w) = FormatInt (sint w)"
| "Sprint ff (NUint w) = FormatInt (uint w)"
| "Sprint ff (NUint32 w) = FormatInt (uint w)"
| "Sprint ff (NUint64 w) = FormatInt (uint w)"
| "Sprint ff (NFloat32 w) = ff (NFloat32 w)"
| "Sprint ff (NFloat64 w) = ff (NFloat64 w)"

subsection \<open>Loops that can panic\<close>

text \<open>
  A \<^verbatim>\<open>for ... range\<close> over a slice that appends one result per element: the first panic
  ends it.
\<close>

fun collect :: "('e + 'a) list \<Rightarrow> 'e + 'a list" where
  "collect [] = Inr []"
| "collect (Inl e # rs) = Inl e"
| "collect (Inr x # rs) = (case collect rs of Inl e \<Rightarrow> Inl e | Inr xs \<Rightarrow> Inr (x # xs))"


subsection \<open>Decoding: \<^verbatim>\<open>getItemValue\<close> and \<^verbatim>\<open>Unmarshal\<close>\<close>

text \<open>
  \<^verbatim>\<open>getItemValue(val *SDK.AttributeValue) Any\<close> is a \<^verbatim>\<open>switch\<close> without a tag: the first
  case whose condition holds is taken. Reading \<^verbatim>\<open>val.N\<close> through a nil \<open>val\<close> panics, and so
  does \<^verbatim>\<open>*vString\<close> on a nil element of \<^verbatim>\<open>NS\<close>. Both \<^verbatim>\<open>strconv.Atoi\<close> calls drop the
  error (\<^verbatim>\<open>data, _ := strconv.Atoi(*val.N)\<close>). The \<^verbatim>\<open>NS\<close> loop declares \<^verbatim>\<open>vInt\<close> afresh
  in every iteration, so the pointers it appends are distinct and each holds its own integer.

  \<^verbatim>\<open>Unmarshal(item *map[string]*SDK.AttributeValue)\<close> ranges over the map and stores one
  result per key in a fresh map; the order of the visit leaves no trace in the result. A panic
  in \<^verbatim>\<open>getItemValue\<close> ends it, and the nil dereference is the only panic there is on this
  side.
\<close>

function getItemValue :: "AttributeValue option \<Rightarrow> panic + Any"
  and Unmarshal :: "(string, AttributeValue option) fmap option \<Rightarrow> panic + (string, Any) fmap"
where
  "getItemValue None = Inl NilPointerDereference"
| "getItemValue (Some val) =
    (if N val \<noteq> None then
       (let (data, _) = Atoi (the (N val)) in Inr (VNumber (NInt data)))
     else if S val \<noteq> None then Inr (VString (the (S val)))
     else if BOOL val \<noteq> None then Inr (VBool (the (BOOL val)))
     else if length (B val) > 0 then Inr (VBytes (B val))
     else if M val \<noteq> None \<and> len_map (the (M val)) > 0 then
       map_sum id VMap (Unmarshal (M val))
     else if length (NS val) > 0 then
       map_sum id VIntPtrs (collect (map
         (\<lambda>vString. case vString of
            None \<Rightarrow> Inl NilPointerDereference
          | Some s \<Rightarrow> (let (vInt, _) = Atoi s in Inr (Some vInt)))
         (NS val)))
     else if length (SS val) > 0 then Inr (VStringPtrs (SS val))
     else if length (BS val) > 0 then Inr (VByteSlices (BS val))
     else if length (L val) > 0 then
       map_sum id VSlice (collect (map getItemValue (L val)))
     else Inr VNil)"
| "Unmarshal None = Inr fmempty"
| "Unmarshal (Some item) =
    (let data = fmmap getItemValue item in
     if fmpred (\<lambda>key r. \<not> isl r) data then Inr (fmmap projr data)
     else Inl NilPointerDereference)"
  by pat_completeness auto
termination
proof (relation "measure (\<lambda>x. case x of
    Inl v \<Rightarrow> size_option size v
  | Inr m \<Rightarrow> size_option (size_fmap (\<lambda>_. 0) (size_option size)) m)", goal_cases)
  case 1
  show ?case by simp
next
  case (2 val)
  then show ?case by (cases val) auto
next
  case (3 val x)
  then show ?case
    by (cases val)
      (auto simp: less_Suc_eq_le
        dest!: size_list_estimation'[where f = "size_option size" and y = "size_option size x"])
next
  case (4 item z)
  then obtain k where "fmlookup item k = Some z"
    by (auto simp: fmran'_def)
  then have mem: "(k, z) \<in> fset (fset_of_fmap item)"
    by simp
  have "(\<lambda>(a, b). Suc (size_option size b)) (k, z)
      \<le> (\<Sum>x\<in>fset (fset_of_fmap item). (\<lambda>(a, b). Suc (size_option size b)) x)"
    by (rule member_le_sum [OF mem]) auto
  then show ?case
    by (simp add: case_prod_beta)
qed

subsection \<open>Encoding: \<^verbatim>\<open>createAttributeValue\<close> and \<^verbatim>\<open>Marshal\<close>\<close>

definition createPointerSliceString :: "string list \<Rightarrow> string option list" where
  "createPointerSliceString values = map Some values"

text \<open>
  \<^verbatim>\<open>MarshalStringSlice(item Any)\<close> walks a slice by reflection and prints each element with
  \<^verbatim>\<open>fmt.Sprint\<close>. It is modelled on the arguments that \<^verbatim>\<open>createAttributeValue\<close> gives it,
  the eight numeric slice types, where \<^verbatim>\<open>reflect.TypeOf(item).Kind()\<close> is Slice.
\<close>

definition MarshalStringSlice :: "(number \<Rightarrow> string) \<Rightarrow> numbers \<Rightarrow> string option list" where
  "MarshalStringSlice ff item = map (\<lambda>x. Some (Sprint ff x)) (elems item)"

text \<open>
  \<^verbatim>\<open>createAttributeValue(v Any)\<close>: a type switch, then a second switch on the reflect kind.
  When the kind is Map the code asserts \<^verbatim>\<open>v.(map[string]interface{})\<close> in the
  single-valued form, which panics for a map of any other type. \<^verbatim>\<open>Marshal\<close> ranges over
  its argument and stores a pointer to each result under the same key; the order of the visit
  leaves no trace in the result. A panic in \<^verbatim>\<open>createAttributeValue\<close> ends it, and the failed
  type assertion is the only panic there is on this side.
\<close>

function createAttributeValue :: "(number \<Rightarrow> string) \<Rightarrow> Any \<Rightarrow> panic + AttributeValue"
  and Marshal :: "(number \<Rightarrow> string) \<Rightarrow> (string, Any) fmap
        \<Rightarrow> panic + (string, AttributeValue option) fmap"
where
  "createAttributeValue ff v =
    (case v of
       VString t \<Rightarrow> Inr (AttributeValue None (Some t) None [] None [] [] [] [])
     | VNumber t \<Rightarrow> Inr (AttributeValue (Some (Sprint ff t)) None None [] None [] [] [] [])
     | VBytes t \<Rightarrow> Inr (AttributeValue None None None t None [] [] [] [])
     | VBool t \<Rightarrow> Inr (AttributeValue None None (Some t) [] None [] [] [] [])
     | VStrings t \<Rightarrow>
         Inr (AttributeValue None None None [] None [] (createPointerSliceString t) [] [])
     | VByteSlices t \<Rightarrow> Inr (AttributeValue None None None [] None [] [] t [])
     | VNumbers t \<Rightarrow>
         Inr (AttributeValue None None None [] None (MarshalStringSlice ff t) [] [] [])
     | _ \<Rightarrow>
         if Kind_of v = KMap then
           (case assert_map v of
              Inl p \<Rightarrow> Inl p
            | Inr item \<Rightarrow>
                map_sum id (\<lambda>data. AttributeValue None None None [] (Some data) [] [] [] [])
                  (Marshal ff item))
         else Inr unset)"
| "Marshal ff item =
    (let data = fmmap (createAttributeValue ff) item in
     if fmpred (\<lambda>key r. \<not> isl r) data then Inr (fmmap (\<lambda>r. Some (projr r)) data)
     else Inl InterfaceConversion)"
  by pat_completeness auto
termination
proof -
  have fm: "size z < size_fmap (\<lambda>_. 0) size m" if "z \<in> fmran' m" for z :: Any and m :: "(string, Any) fmap"
  proof -
    from that obtain k where "fmlookup m k = Some z"
      by (auto simp: fmran'_def)
    then have mem: "(k, z) \<in> fset (fset_of_fmap m)"
      by simp
    have "(\<lambda>(a, b). Suc (size b)) (k, z)
        \<le> (\<Sum>x\<in>fset (fset_of_fmap m). (\<lambda>(a, b). Suc (size b)) x)"
      by (rule member_le_sum [OF mem]) auto
    then show ?thesis
      by (simp add: case_prod_beta)
  qed
  show ?thesis
    by (relation "measure (\<lambda>x. case x of
        Inl (ff, v) \<Rightarrow> 2 * size v
      | Inr (ff, m) \<Rightarrow> 2 * size_fmap (\<lambda>_. 0) size m + 1)")
      (auto dest: fm)
qed

subsection \<open>Key schema\<close>

record KeySchemaElement =
  AttributeName :: "string option"
  KeyType :: "string option"

text \<open>\<^verbatim>\<open>xs[i]\<close>, which panics out of range.\<close>

definition index :: "'a list \<Rightarrow> nat \<Rightarrow> panic + 'a" where
  "index xs i = (if i < length xs then Inr (xs ! i) else Inl IndexOutOfRange)"

text \<open>
  \<^verbatim>\<open>NewKeySchema(elements ...*SDK.KeySchemaElement)\<close>. \<^verbatim>\<open>make([]T, n, n)\<close> is n nil
  pointers; the assignments then fill them. With no argument at all the \<^verbatim>\<open>else\<close> branch
  reads \<^verbatim>\<open>elements[0]\<close> and panics.
\<close>

definition NewKeySchema ::
  "KeySchemaElement option list \<Rightarrow> panic + KeySchemaElement option list" where
  "NewKeySchema elements =
    (if length elements > 1 then
       (let schema = replicate 2 None in
        case index elements 0 of Inl p \<Rightarrow> Inl p | Inr e0 \<Rightarrow>
          (case index elements 1 of Inl p \<Rightarrow> Inl p | Inr e1 \<Rightarrow>
             Inr (list_update (list_update schema 0 e0) 1 e1)))
     else
       (let schema = replicate 1 None in
        case index elements 0 of Inl p \<Rightarrow> Inl p | Inr e0 \<Rightarrow>
          Inr (list_update schema 0 e0)))"

subsection \<open>Vocabulary of the properties\<close>

text \<open>
  The numeric value of a Go integer; a float has none here. \<open>representable\<close> is the range
  of \<^verbatim>\<open>int\<close>, the type in which \<^verbatim>\<open>getItemValue\<close> returns every number.
\<close>

fun int_val :: "number \<Rightarrow> int option" where
  "int_val (NInt w) = Some (sint w)"
| "int_val (NInt32 w) = Some (sint w)"
| "int_val (NInt64 w) = Some (sint w)"
| "int_val (NUint w) = Some (uint w)"
| "int_val (NUint32 w) = Some (uint w)"
| "int_val (NUint64 w) = Some (uint w)"
| "int_val (NFloat32 w) = None"
| "int_val (NFloat64 w) = None"

definition representable :: "int \<Rightarrow> bool" where
  "representable i \<longleftrightarrow> - (2 ^ 63) \<le> i \<and> i < 2 ^ 63"



text \<open>
  An AttributeValue as a tree without nil pointers: no nil entry in its map, its list or its
  number set, at any depth. The specification's TaggedValue is such a tree. (A nil element of
  \<^verbatim>\<open>SS\<close> is harmless: \<^verbatim>\<open>getItemValue\<close> copies those pointers without reading through
  them.)
\<close>

primrec no_nil :: "AttributeValue \<Rightarrow> bool" where
  "no_nil (AttributeValue n s bo b m ns ss bs l) =
     ((case map_option (fmmap (map_option no_nil)) m of
         None \<Rightarrow> True
       | Some r \<Rightarrow> fmpred (\<lambda>key p. p = Some True) r)
      \<and> list_all (\<lambda>p. p \<noteq> None) ns
      \<and> list_all (\<lambda>p. p = Some True) (map (map_option no_nil) l))"

definition no_nil_ptr :: "AttributeValue option \<Rightarrow> bool" where
  "no_nil_ptr p = (case p of None \<Rightarrow> False | Some val \<Rightarrow> no_nil val)"


section \<open>Properties\<close>

subsection \<open>Evaluation lemmas\<close>

lemma digits_lt10: "n < 10 \<Longrightarrow> digits n = [digit_char n]"
  by (simp add: digits.simps)

lemma digits_ge10: "\<not> n < 10 \<Longrightarrow> digits n = digits (n div 10) @ [digit_char (n mod 10)]"
  by (subst digits.simps) simp

lemmas format_eval = FormatInt_def digits_lt10 digits_ge10 digit_char_def

lemmas atoi_eval = Atoi_def ParseInt_def ParseUint_def is_digit_def digit_val_def maxVal_def
  cutoff_def Let_def

lemma fmpred_fmupd_iff: "fmpred P (fmupd k v m) \<longleftrightarrow> P k v \<and> fmpred P (fmdrop k m)"
  by (auto simp: fmpred_iff split: if_splits)

lemma len_map_pos: "0 < len_map m \<longleftrightarrow> m \<noteq> fmempty"
proof -
  have "0 < len_map m \<longleftrightarrow> fmdom m \<noteq> {||}"
    unfolding len_map_def by (metis fcard_0_eq neq0_conv)
  also have "\<dots> \<longleftrightarrow> m \<noteq> fmempty"
    by (metis fmdom_empty fmrestrict_fset_dom fmrestrict_fset_null)
  finally show ?thesis .
qed

subsection \<open>Empty maps and empty byte buffers\<close>

text \<open>
  C6. An AttributeValue whose only populated field is \<^verbatim>\<open>M\<close>, pointing to a map with no
  entries, decodes to nil, and so does one whose \<^verbatim>\<open>B\<close> is an empty buffer with nothing else
  populated. Hence encoding an empty byte buffer and decoding the result gives nil, not the
  buffer, while a non-empty byte buffer comes back as it was.
\<close>

theorem empty_Map_and_Binary_absent:
  "getItemValue (Some (AttributeValue None None None [] (Some fmempty) [] [] [] [])) = Inr VNil
   \<and> getItemValue (Some (AttributeValue None None None [] None [] [] [] [])) = Inr VNil
   \<and> (\<exists>av. createAttributeValue ff (VBytes []) = Inr av \<and> getItemValue (Some av) = Inr VNil)
   \<and> (b \<noteq> [] \<longrightarrow>
        (\<exists>av. createAttributeValue ff (VBytes b) = Inr av
              \<and> getItemValue (Some av) = Inr (VBytes b)))"
  by (simp add: len_map_def)

theorem empty_Map_and_Binary_absent_witness:
  "[104, 105 :: byte] \<noteq> []
   \<and> (\<exists>av. createAttributeValue (\<lambda>x. ''0'') (VBytes [104, 105]) = Inr av
           \<and> getItemValue (Some av) = Inr (VBytes [104, 105]))"
  using empty_Map_and_Binary_absent [of "\<lambda>x. ''0''" "[104, 105]"] by simp

subsection \<open>Key schema\<close>

text \<open>
  C10. Called with exactly one element, \<^verbatim>\<open>NewKeySchema\<close> returns the slice holding that
  element; called with two or more, it returns the slice of exactly the first two, in order,
  and every further element is discarded.
\<close>

theorem NewKeySchema_at_most_two:
  "(length elements = 1 \<longrightarrow> NewKeySchema elements = Inr [elements ! 0])
   \<and> (2 \<le> length elements \<longrightarrow> NewKeySchema elements = Inr [elements ! 0, elements ! 1])"
  by (auto simp: NewKeySchema_def index_def numeral_2_eq_2)

theorem NewKeySchema_at_most_two_witness:
  "NewKeySchema [Some \<lparr>AttributeName = Some ''id'', KeyType = Some ''HASH''\<rparr>]
     = Inr [Some \<lparr>AttributeName = Some ''id'', KeyType = Some ''HASH''\<rparr>]
   \<and> NewKeySchema
        [Some \<lparr>AttributeName = Some ''id'', KeyType = Some ''HASH''\<rparr>,
         Some \<lparr>AttributeName = Some ''time'', KeyType = Some ''RANGE''\<rparr>,
         Some \<lparr>AttributeName = Some ''extra'', KeyType = Some ''RANGE''\<rparr>]
     = Inr [Some \<lparr>AttributeName = Some ''id'', KeyType = Some ''HASH''\<rparr>,
            Some \<lparr>AttributeName = Some ''time'', KeyType = Some ''RANGE''\<rparr>]"
  using
    NewKeySchema_at_most_two
      [of "[Some \<lparr>AttributeName = Some ''id'', KeyType = Some ''HASH''\<rparr>]"]
    NewKeySchema_at_most_two
      [of "[Some \<lparr>AttributeName = Some ''id'', KeyType = Some ''HASH''\<rparr>,
            Some \<lparr>AttributeName = Some ''time'', KeyType = Some ''RANGE''\<rparr>,
            Some \<lparr>AttributeName = Some ''extra'', KeyType = Some ''RANGE''\<rparr>]"]
  by simp

subsection \<open>Numbers that do not parse\<close>

lemma Atoi_syntax: "snd (Atoi s) = Some ErrSyntax \<Longrightarrow> fst (Atoi s) = 0"
  by (auto simp: Atoi_def ParseInt_def ParseUint_def Let_def
      split: if_splits prod.splits sum.splits NumError.splits)

lemma Atoi_range:
  "snd (Atoi s) = Some ErrRange \<Longrightarrow>
     sint (fst (Atoi s)) = (if hd s = CHR ''-'' then - (2 ^ 63) else 2 ^ 63 - 1)"
  by (auto simp: Atoi_def ParseInt_def ParseUint_def Let_def
      split: if_splits prod.splits sum.splits NumError.splits)

lemma collect_map_Inr: "collect (map (\<lambda>x. Inr (g x)) xs) = Inr (map g xs)"
  by (induction xs) auto

text \<open>The \<^verbatim>\<open>NS\<close> loop: one integer per element, in the order of the slice.\<close>

lemma getItemValue_NS:
  assumes "N val = None" and "S val = None" and "BOOL val = None" and "B val = []"
    and "M val = None \<or> M val = Some fmempty"
    and "NS val \<noteq> []" and "None \<notin> set (NS val)"
  shows "getItemValue (Some val) = Inr (VIntPtrs (map (\<lambda>p. Some (fst (Atoi (the p)))) (NS val)))"
proof -
  have "(case p of
            None \<Rightarrow> Inl NilPointerDereference
          | Some s \<Rightarrow> (let (vInt, _) = Atoi s in Inr (Some vInt)))
      = (Inr (Some (fst (Atoi (the p)))) :: panic + 64 word option)"
    if "p \<in> set (NS val)" for p
  proof -
    from that assms(7) have "p \<noteq> None"
      by metis
    then show ?thesis
      by (cases p) (simp_all add: case_prod_beta)
  qed
  then have "map (\<lambda>vString. case vString of
            None \<Rightarrow> Inl NilPointerDereference
          | Some s \<Rightarrow> (let (vInt, _) = Atoi s in Inr (Some vInt))) (NS val)
      = map (\<lambda>p. Inr (Some (fst (Atoi (the p))))) (NS val)"
    by (intro map_cong) simp_all
  then have loop: "collect (map (\<lambda>vString. case vString of
            None \<Rightarrow> Inl NilPointerDereference
          | Some s \<Rightarrow> (let (vInt, _) = Atoi s in Inr (Some vInt))) (NS val))
      = Inr (map (\<lambda>p. Some (fst (Atoi (the p)))) (NS val))"
    by (simp only: collect_map_Inr)
  have "\<not> (M val \<noteq> None \<and> 0 < len_map (the (M val)))"
    using assms(5) by (auto simp: len_map_pos)
  then have "getItemValue (Some val) = map_sum id VIntPtrs (collect (map
         (\<lambda>vString. case vString of
            None \<Rightarrow> Inl NilPointerDereference
          | Some s \<Rightarrow> (let (vInt, _) = Atoi s in Inr (Some vInt)))
         (NS val)))"
    using assms(1-4,6) by (auto simp add: Let_def cong: option.case_cong)
  then have "getItemValue (Some val)
      = Inr (VIntPtrs (map (\<lambda>p. Some (fst (Atoi (the p)))) (NS val)))"
    unfolding loop by simp
  then show ?thesis .
qed


text \<open>
  C2, as the code has it. When \<^verbatim>\<open>N\<close> is populated the decoder parses its text with
  \<^verbatim>\<open>strconv.Atoi\<close> and throws the error away: the result is always an ordinary integer,
  namely the value \<^verbatim>\<open>Atoi\<close> returns. That value is 0 when \<^verbatim>\<open>Atoi\<close> reports a syntax
  error and, when it reports a range error, the smallest \<^verbatim>\<open>int\<close> for a text that starts
  with a minus sign and the largest \<^verbatim>\<open>int\<close> for any other text. No failure is recorded.
\<close>

theorem Number_parse_error_discarded:
  "N val = Some s \<Longrightarrow>
     getItemValue (Some val) = Inr (VNumber (NInt (fst (Atoi s))))
     \<and> (snd (Atoi s) = Some ErrSyntax \<longrightarrow> fst (Atoi s) = 0)
     \<and> (snd (Atoi s) = Some ErrRange \<longrightarrow>
          sint (fst (Atoi s)) = (if hd s = CHR ''-'' then - (2 ^ 63) else 2 ^ 63 - 1))"
  using Atoi_syntax [of s] Atoi_range [of s] by (simp add: case_prod_beta)

theorem Number_parse_error_discarded_witness:
  "snd (Atoi ''-42x'') = Some ErrSyntax
   \<and> getItemValue (Some (AttributeValue (Some ''-42x'') None None [] None [] [] [] []))
       = Inr (VNumber (NInt 0))
   \<and> snd (Atoi ''-99999999999999999999'') = Some ErrRange
   \<and> getItemValue
       (Some (AttributeValue (Some ''-99999999999999999999'') None None [] None [] [] [] []))
       = Inr (VNumber (NInt (- 9223372036854775808)))
   \<and> snd (Atoi ''99999999999999999999x'') = Some ErrRange
   \<and> getItemValue
       (Some (AttributeValue (Some ''99999999999999999999x'') None None [] None [] [] [] []))
       = Inr (VNumber (NInt 9223372036854775807))"
  using
    Number_parse_error_discarded
      [of "AttributeValue (Some ''-42x'') None None [] None [] [] [] []" "''-42x''"]
    Number_parse_error_discarded
      [of "AttributeValue (Some ''-99999999999999999999'') None None [] None [] [] [] []"
          "''-99999999999999999999''"]
    Number_parse_error_discarded
      [of "AttributeValue (Some ''99999999999999999999x'') None None [] None [] [] [] []"
          "''99999999999999999999x''"]
  by (simp add: atoi_eval)

text \<open>
  C2, as the specification states it, fails: the text "1.5" is not parseable as an integer,
  and decoding it yields the ordinary integer 0.
\<close>

theorem fractional_Number_decodes_to_zero:
  "snd (Atoi ''1.5'') = Some ErrSyntax
   \<and> getItemValue (Some (AttributeValue (Some ''1.5'') None None [] None [] [] [] []))
       = Inr (VNumber (NInt 0))"
  by (simp add: atoi_eval)

text \<open>
  C1, as the code has it. Decoding a number set with at least one element (and no earlier
  field populated) never fails and yields one integer per element, in the order of the set;
  no element is dropped. The integer at each position is the value \<^verbatim>\<open>Atoi\<close> returns for
  that element's text, the error being thrown away: 0 when \<^verbatim>\<open>Atoi\<close> reports a syntax
  error and, when it reports a range error, the smallest \<^verbatim>\<open>int\<close> for a text that starts
  with a minus sign and the largest \<^verbatim>\<open>int\<close> for any other text.
\<close>

theorem NumberSet_keeps_every_element:
  assumes "N val = None" and "S val = None" and "BOOL val = None" and "B val = []"
    and "M val = None \<or> M val = Some fmempty"
    and "NS val \<noteq> []" and "None \<notin> set (NS val)"
  shows "getItemValue (Some val) = Inr (VIntPtrs (map (\<lambda>p. Some (fst (Atoi (the p)))) (NS val)))
    \<and> (\<forall>p \<in> set (NS val).
          (snd (Atoi (the p)) = Some ErrSyntax \<longrightarrow> fst (Atoi (the p)) = 0)
          \<and> (snd (Atoi (the p)) = Some ErrRange \<longrightarrow>
               sint (fst (Atoi (the p)))
                 = (if hd (the p) = CHR ''-'' then - (2 ^ 63) else 2 ^ 63 - 1)))"
  using getItemValue_NS [OF assms] Atoi_syntax Atoi_range by blast

theorem NumberSet_keeps_every_element_witness:
  "getItemValue
     (Some (AttributeValue None None None [] None
        [Some ''7'', Some ''0x10'', Some ''-2'', Some ''99999999999999999999x'',
         Some ''-99999999999999999999'']
        [] [] []))
     = Inr (VIntPtrs [Some 7, Some 0, Some (- 2), Some 9223372036854775807,
                      Some (- 9223372036854775808)])
   \<and> snd (Atoi ''0x10'') = Some ErrSyntax
   \<and> snd (Atoi ''99999999999999999999x'') = Some ErrRange
   \<and> snd (Atoi ''-99999999999999999999'') = Some ErrRange"
  using NumberSet_keeps_every_element
    [of "AttributeValue None None None [] None
        [Some ''7'', Some ''0x10'', Some ''-2'', Some ''99999999999999999999x'',
         Some ''-99999999999999999999'']
        [] [] []"]
  by (simp add: atoi_eval)

text \<open>
  C1, as the specification states it, fails: in the set "1", "x", "3" the element "x" does not
  parse, and the result has three elements, with 0 in its place.
\<close>

theorem unparsable_set_element_kept_as_zero:
  "snd (Atoi ''x'') = Some ErrSyntax
   \<and> getItemValue
       (Some (AttributeValue None None None [] None [Some ''1'', Some ''x'', Some ''3''] [] [] []))
     = Inr (VIntPtrs [Some 1, Some 0, Some 3])"
  by (simp add: atoi_eval)

subsection \<open>Maps of another type\<close>

text \<open>
  C5. The encoder is not total: a value whose kind is Map but whose type is not
  \<^verbatim>\<open>map[string]interface{}\<close>, such as a \<^verbatim>\<open>map[string]string\<close>, passes the kind test and
  then fails the type assertion, so \<^verbatim>\<open>createAttributeValue\<close> panics instead of returning
  the empty AttributeValue.
\<close>

theorem createAttributeValue_panics_on_other_map:
  "createAttributeValue ff (VOther KMap) = Inl InterfaceConversion"
  by simp

text \<open>
  C9. For the same reason \<^verbatim>\<open>Marshal\<close> does not always succeed: a record with one field
  holding a \<^verbatim>\<open>map[string]string\<close> makes it panic.
\<close>

theorem Marshal_panics_on_other_map:
  "Marshal ff (fmupd ''labels'' (VOther KMap) fmempty) = Inl InterfaceConversion"
  by (simp add: fmmap_fmupd fmpred_fmupd_iff)

subsection \<open>Integers survive the round trip\<close>

text \<open>Parsing what \<open>digits\<close> printed gives the number back, as long as it fits a uint64.\<close>

lemma digit_char_digit:
  assumes "d < 10"
  shows "is_digit (digit_char d)" and "digit_val (digit_char d) = d"
proof -
  from assms have "d \<in> {0, 1, 2, 3, 4, 5, 6, 7, 8, 9}"
    by auto
  then show "is_digit (digit_char d)" and "digit_val (digit_char d) = d"
    by (auto simp: digit_char_def is_digit_def digit_val_def)
qed

lemma ParseUint_loop_snoc:
  "ParseUint_loop n (s @ [d])
     = (case ParseUint_loop n s of Inl e \<Rightarrow> Inl e | Inr m \<Rightarrow> ParseUint_loop m [d])"
  by (induction s arbitrary: n) (auto simp: Let_def)

lemma ParseUint_loop_digits: "n \<le> maxVal \<Longrightarrow> ParseUint_loop 0 (digits n) = Inr n"
proof (induction n rule: digits.induct)
  case (1 n)
  show ?case
  proof (cases "n < 10")
    case True
    then show ?thesis
      using "1.prems" by (simp add: digits_lt10 digit_char_digit cutoff_def maxVal_def)
  next
    case False
    from "1.prems" have "n div 10 \<le> maxVal"
      by simp
    with "1.IH" False have IH: "ParseUint_loop 0 (digits (n div 10)) = Inr (n div 10)"
      by simp
    have "n div 10 < cutoff"
      using "1.prems" by (simp add: cutoff_def div_le_mono less_Suc_eq_le)
    moreover have "n div 10 * 10 + n mod 10 = n"
      by simp
    ultimately show ?thesis
      using False "1.prems" IH
      by (simp add: digits_ge10 ParseUint_loop_snoc digit_char_digit)
  qed
qed

lemma digits_all_digits: "c \<in> set (digits n) \<Longrightarrow> is_digit c"
proof (induction n rule: digits.induct)
  case (1 n)
  then show ?case
    by (cases "n < 10") (auto simp: digits_lt10 digits_ge10 digit_char_digit)
qed

lemma digits_not_Nil: "digits n \<noteq> []"
  by (cases "n < 10") (simp_all add: digits_lt10 digits_ge10)

lemma hd_digits_no_sign: "hd (digits n) \<noteq> CHR ''-''" "hd (digits n) \<noteq> CHR ''+''"
proof -
  have "is_digit (hd (digits n))"
    using digits_all_digits [of "hd (digits n)" n] digits_not_Nil [of n] by simp
  then show "hd (digits n) \<noteq> CHR ''-''" "hd (digits n) \<noteq> CHR ''+''"
    by (auto simp: is_digit_def)
qed

lemma ParseUint_digits: "n \<le> maxVal \<Longrightarrow> ParseUint (digits n) = (n, None)"
  by (simp add: ParseUint_def digits_not_Nil ParseUint_loop_digits)

lemma ParseInt_FormatInt:
  assumes "representable i"
  shows "ParseInt (FormatInt i) = (i, None)"
proof (cases "i < 0")
  case True
  with assms have "nat (- i) \<le> 2 ^ 63"
    by (simp add: representable_def nat_le_iff)
  then have "ParseUint (digits (nat (- i))) = (nat (- i), None)"
    by (intro ParseUint_digits) (simp add: maxVal_def)
  moreover have "\<not> nat (- i) > 2 ^ 63"
    using \<open>nat (- i) \<le> 2 ^ 63\<close> by simp
  ultimately show ?thesis
    using True by (simp add: ParseInt_def FormatInt_def)
next
  case False
  with assms have lt: "nat i < 2 ^ 63"
    by (simp add: representable_def nat_less_iff)
  then have "ParseUint (digits (nat i)) = (nat i, None)"
    by (intro ParseUint_digits) (simp add: maxVal_def)
  then show ?thesis
    using False lt by (simp add: ParseInt_def FormatInt_def digits_not_Nil hd_digits_no_sign)
qed

lemma Atoi_FormatInt: "representable i \<Longrightarrow> Atoi (FormatInt i) = (word_of_int i, None)"
  by (simp add: Atoi_def ParseInt_FormatInt)

lemma Atoi_FormatInt_sint: "fst (Atoi (FormatInt (sint w))) = w" for w :: "64 word"
proof -
  have "representable (sint w)"
    using sint_ge [of w] sint_lt [of w] by (simp add: representable_def)
  then show ?thesis
    by (simp add: Atoi_FormatInt)
qed

lemma Sprint_int_val: "int_val n = Some i \<Longrightarrow> Sprint ff n = FormatInt i"
  by (cases n) auto

text \<open>
  C4, as the code has it. For a value \<open>n\<close> of one of the six integer types that the type
  switch names (\<^verbatim>\<open>int\<close>, \<^verbatim>\<open>int32\<close>, \<^verbatim>\<open>int64\<close>, \<^verbatim>\<open>uint\<close>, \<^verbatim>\<open>uint32\<close>, \<^verbatim>\<open>uint64\<close>)
  whose numeric value \<open>i\<close> lies in the range of \<^verbatim>\<open>int\<close>, the encoder puts the decimal text
  of \<open>i\<close> in \<^verbatim>\<open>N\<close>, and decoding that AttributeValue gives the \<^verbatim>\<open>int\<close> whose value is \<open>i\<close>.
\<close>

theorem integer_roundtrip:
  assumes "int_val n = Some i" and "representable i"
  shows "\<exists>av w. createAttributeValue ff (VNumber n) = Inr av
           \<and> N av = Some (FormatInt i)
           \<and> getItemValue (Some av) = Inr (VNumber (NInt w))
           \<and> sint w = i"
proof -
  have "sint (word_of_int i :: 64 word) = i"
    using assms(2)
    by (simp add: sint_sbintrunc' signed_take_bit_int_eq_self representable_def)
  then show ?thesis
    using assms by (simp add: Sprint_int_val Atoi_FormatInt)
qed

theorem integer_roundtrip_witness:
  "int_val (NUint32 4000000000) = Some 4000000000
   \<and> representable 4000000000
   \<and> createAttributeValue (\<lambda>x. ''0'') (VNumber (NUint32 4000000000))
       = Inr (AttributeValue (Some ''4000000000'') None None [] None [] [] [] [])
   \<and> getItemValue (Some (AttributeValue (Some ''4000000000'') None None [] None [] [] [] []))
       = Inr (VNumber (NInt 4000000000))"
  using integer_roundtrip [of "NUint32 4000000000" 4000000000 "\<lambda>x. ''0''"]
  by (simp add: representable_def format_eval atoi_eval)

text \<open>
  C4, as the specification states it, fails: an \<^verbatim>\<open>int8\<close> (any value of it, such as 5) is an
  integer within the range of \<^verbatim>\<open>int\<close>, but the type switch does not name its type and its
  kind is not Map, so it is encoded as the empty AttributeValue, which decodes to nil.
\<close>

theorem int8_decodes_to_nil:
  "createAttributeValue (\<lambda>x. ''0'') (VOther KInt8) = Inr unset
   \<and> getItemValue (Some unset) = Inr VNil"
  by (simp add: unset_def len_map_def)

subsection \<open>Number sets keep their order\<close>

text \<open>
  C7. Every \<^verbatim>\<open>[]int\<close> slice is encoded with one entry in \<^verbatim>\<open>NS\<close> per element, the decimal
  text of that element, in the order of the slice; decoding a non-empty one gives pointers
  to the same integers in the same order. In particular the slice 1, 2, 3 is encoded with
  exactly the three entries "1", "2", "3" in that order, and decoding that AttributeValue gives
  the integers 1, 2, 3 in the same order.
\<close>

theorem int_slice_keeps_order:
  "createAttributeValue ff (VNumbers (SInt xs))
     = Inr (AttributeValue None None None [] None
              (map (\<lambda>w. Some (FormatInt (sint w))) xs) [] [] [])
   \<and> (xs \<noteq> [] \<longrightarrow>
        getItemValue (Some (AttributeValue None None None [] None
              (map (\<lambda>w. Some (FormatInt (sint w))) xs) [] [] []))
          = Inr (VIntPtrs (map Some xs)))
   \<and> createAttributeValue ff (VNumbers (SInt [1, 2, 3]))
     = Inr (AttributeValue None None None [] None [Some ''1'', Some ''2'', Some ''3''] [] [] [])
   \<and> getItemValue
       (Some (AttributeValue None None None [] None [Some ''1'', Some ''2'', Some ''3''] [] [] []))
     = Inr (VIntPtrs [Some 1, Some 2, Some 3])"
proof (intro conjI impI)
  show "createAttributeValue ff (VNumbers (SInt xs))
     = Inr (AttributeValue None None None [] None
              (map (\<lambda>w. Some (FormatInt (sint w))) xs) [] [] [])"
    by (simp add: MarshalStringSlice_def comp_def)
next
  assume "xs \<noteq> []"
  let ?val = "AttributeValue None None None [] None
              (map (\<lambda>w. Some (FormatInt (sint w))) xs) [] [] []"
  have "getItemValue (Some ?val)
      = Inr (VIntPtrs (map (\<lambda>p. Some (fst (Atoi (the p)))) (NS ?val)))"
    using \<open>xs \<noteq> []\<close> by (intro getItemValue_NS) auto
  also have "map (\<lambda>p. Some (fst (Atoi (the p)))) (NS ?val) = map Some xs"
    by (simp add: comp_def Atoi_FormatInt_sint)
  finally show "getItemValue (Some ?val) = Inr (VIntPtrs (map Some xs))" .
next
  show "createAttributeValue ff (VNumbers (SInt [1, 2, 3]))
     = Inr (AttributeValue None None None [] None [Some ''1'', Some ''2'', Some ''3''] [] [] [])"
    by (simp add: MarshalStringSlice_def format_eval)
next
  show "getItemValue
       (Some (AttributeValue None None None [] None [Some ''1'', Some ''2'', Some ''3''] [] [] []))
     = Inr (VIntPtrs [Some 1, Some 2, Some 3])"
    by (simp add: atoi_eval)
qed

theorem int_slice_keeps_order_witness:
  "[3, 1, 2 :: 64 word] \<noteq> []
   \<and> createAttributeValue (\<lambda>x. ''0'') (VNumbers (SInt [3, 1, 2]))
     = Inr (AttributeValue None None None [] None [Some ''3'', Some ''1'', Some ''2''] [] [] [])
   \<and> getItemValue
       (Some (AttributeValue None None None [] None [Some ''3'', Some ''1'', Some ''2''] [] [] []))
     = Inr (VIntPtrs [Some 3, Some 1, Some 2])"
  using int_slice_keeps_order [of "\<lambda>x. ''0''" "[3, 1, 2]"]
  by (simp add: format_eval)

subsection \<open>Decoding a record\<close>

text \<open>A tree without nil pointers never makes the decoder panic.\<close>

lemma collect_all_Inr: "(\<forall>r \<in> set rs. \<not> isl r) \<Longrightarrow> collect rs = Inr (map projr rs)"
proof (induction rs)
  case Nil
  then show ?case by simp
next
  case (Cons r rs)
  then show ?case by (cases r) auto
qed

lemma no_nil_ptr_iff: "no_nil_ptr p \<longleftrightarrow> (\<exists>val. p = Some val \<and> no_nil val)"
  by (cases p) (simp_all add: no_nil_ptr_def)

lemma no_nil_iff:
  "no_nil val \<longleftrightarrow>
     (\<forall>mm. M val = Some mm \<longrightarrow> fmpred (\<lambda>key. no_nil_ptr) mm)
     \<and> None \<notin> set (NS val)
     \<and> (\<forall>p \<in> set (L val). no_nil_ptr p)"
proof (cases val)
  case (AttributeValue n s bo b m ns ss bs l)
  have ns: "list_all (\<lambda>p. p \<noteq> None) ns \<longleftrightarrow> None \<notin> set ns"
    unfolding list_all_iff by metis
  have l: "list_all (\<lambda>p. p = Some True) (map (map_option no_nil) l)
      \<longleftrightarrow> (\<forall>p \<in> set l. no_nil_ptr p)"
    by (simp add: list_all_iff no_nil_ptr_iff)
  have m: "(case map_option (fmmap (map_option no_nil)) m of
         None \<Rightarrow> True
       | Some r \<Rightarrow> fmpred (\<lambda>key p. p = Some True) r)
      \<longleftrightarrow> (\<forall>mm. m = Some mm \<longrightarrow> fmpred (\<lambda>key. no_nil_ptr) mm)"
    by (cases m) (simp_all add: no_nil_ptr_iff [abs_def])
  show ?thesis
    unfolding AttributeValue no_nil.simps ns l m by simp
qed

lemma getItemValue_no_nil:
  "no_nil_ptr p \<longrightarrow> \<not> isl (getItemValue p)"
  "(\<forall>item. mp = Some item \<longrightarrow> fmpred (\<lambda>key. no_nil_ptr) item) \<longrightarrow> \<not> isl (Unmarshal mp)"
proof (induction p and mp rule: getItemValue_Unmarshal.induct)
  case 1
  show ?case by (simp add: no_nil_ptr_def)
next
  case (2 val)
  show ?case
  proof
    assume "no_nil_ptr (Some val)"
    then have nn: "no_nil val"
      by (simp add: no_nil_ptr_def)
    have map: "\<not> isl (Unmarshal (M val))"
      if "N val = None" "S val = None" "BOOL val = None" "B val = []"
        "M val \<noteq> None \<and> 0 < len_map (the (M val))"
      using "2.IH"(1) that nn by (simp add: no_nil_iff)
    let ?f = "\<lambda>vString. case vString of
            None \<Rightarrow> Inl NilPointerDereference
          | Some s \<Rightarrow> (let (vInt, _) = Atoi s in Inr (Some vInt))"
    have ns: "\<not> isl (collect (map ?f (NS val)))"
    proof -
      have "None \<notin> set (NS val)"
        using nn by (simp add: no_nil_iff)
      then have "\<forall>p \<in> set (NS val). \<exists>s. p = Some s"
        by (metis not_None_eq)
      then have "\<forall>r \<in> set (map ?f (NS val)). \<not> isl r"
        by (auto simp: case_prod_beta)
      then have "collect (map ?f (NS val)) = Inr (map projr (map ?f (NS val)))"
        by (rule collect_all_Inr)
      then show ?thesis
        by (simp only: sum.disc not_False_eq_True)
    qed
    have l: "\<not> isl (collect (map getItemValue (L val)))"
      if "N val = None" "S val = None" "BOOL val = None" "B val = []"
        "\<not> (M val \<noteq> None \<and> 0 < len_map (the (M val)))"
        "NS val = []" "SS val = []" "BS val = []" "L val \<noteq> []"
    proof -
      have "\<forall>r \<in> set (map getItemValue (L val)). \<not> isl r"
        using "2.IH"(2) that nn by (auto simp: no_nil_iff)
      then have "collect (map getItemValue (L val))
          = Inr (map projr (map getItemValue (L val)))"
        by (rule collect_all_Inr)
      then show ?thesis
        by (simp only: sum.disc not_False_eq_True)
    qed
    show "\<not> isl (getItemValue (Some val))"
      using map ns l
      by (auto simp add: Let_def isl_map_sum case_prod_beta cong: option.case_cong)
  qed
next
  case 3
  show ?case by simp
next
  case (4 item)
  show ?case
  proof
    assume "\<forall>item'. Some item = Some item' \<longrightarrow> fmpred (\<lambda>key. no_nil_ptr) item'"
    then have "fmpred (\<lambda>key. no_nil_ptr) item"
      by simp
    then have "fmpred (\<lambda>key p. \<not> isl (getItemValue p)) item"
      using "4.IH" by (auto simp: fmpred_iff intro: fmran'I)
    then show "\<not> isl (Unmarshal (Some item))"
      by simp
  qed
qed


text \<open>
  C8. \<^verbatim>\<open>Unmarshal\<close> of a nil reference returns an empty map. Of a present map whose values
  are AttributeValue trees it returns a map with exactly the keys of its argument, and the
  value stored under each key is what \<^verbatim>\<open>getItemValue\<close> returns for the argument's value
  under that key.
\<close>

theorem Unmarshal_nil_and_entries:
  "Unmarshal None = Inr fmempty
   \<and> (fmpred (\<lambda>key. no_nil_ptr) item \<longrightarrow>
        (\<exists>data. Unmarshal (Some item) = Inr data
           \<and> fmdom data = fmdom item
           \<and> (\<forall>key p. fmlookup item key = Some p \<longrightarrow>
                 (\<exists>y. fmlookup data key = Some y \<and> getItemValue p = Inr y))))"
proof (intro conjI impI)
  show "Unmarshal None = Inr fmempty"
    by simp
next
  assume "fmpred (\<lambda>key. no_nil_ptr) item"
  then have ok: "fmpred (\<lambda>key p. \<not> isl (getItemValue p)) item"
    using getItemValue_no_nil(1) by (auto simp: fmpred_iff)
  then have "Unmarshal (Some item) = Inr (fmmap projr (fmmap getItemValue item))"
    by simp
  moreover have "fmdom (fmmap projr (fmmap getItemValue item)) = fmdom item"
    by simp
  moreover have "\<exists>y. fmlookup (fmmap projr (fmmap getItemValue item)) key = Some y
      \<and> getItemValue p = Inr y" if "fmlookup item key = Some p" for key p
  proof -
    from ok that have "\<not> isl (getItemValue p)"
      by (auto simp: fmpred_iff)
    then show ?thesis
      using that by (cases "getItemValue p") simp_all
  qed
  ultimately show "\<exists>data. Unmarshal (Some item) = Inr data
           \<and> fmdom data = fmdom item
           \<and> (\<forall>key p. fmlookup item key = Some p \<longrightarrow>
                 (\<exists>y. fmlookup data key = Some y \<and> getItemValue p = Inr y))"
    by blast
qed

theorem Unmarshal_nil_and_entries_witness:
  "fmpred (\<lambda>key. no_nil_ptr)
     (fmupd ''name'' (Some (AttributeValue None (Some ''Alice'') None [] None [] [] [] []))
       (fmupd ''age'' (Some (AttributeValue (Some ''30'') None None [] None [] [] [] []))
         fmempty))
   \<and> (\<exists>data. Unmarshal (Some
         (fmupd ''name'' (Some (AttributeValue None (Some ''Alice'') None [] None [] [] [] []))
           (fmupd ''age'' (Some (AttributeValue (Some ''30'') None None [] None [] [] [] []))
             fmempty))) = Inr data
        \<and> fmdom data = {|''name'', ''age''|}
        \<and> fmlookup data ''name'' = Some (VString ''Alice'')
        \<and> fmlookup data ''age'' = Some (VNumber (NInt 30)))"
proof -
  let ?item = "fmupd ''name'' (Some (AttributeValue None (Some ''Alice'') None [] None [] [] [] []))
       (fmupd ''age'' (Some (AttributeValue (Some ''30'') None None [] None [] [] [] []))
         fmempty)"
  have hyp: "fmpred (\<lambda>key. no_nil_ptr) ?item"
    by (simp add: fmpred_fmupd_iff fmdrop_fmupd no_nil_ptr_def)
  with Unmarshal_nil_and_entries [of ?item] obtain data where
    data: "Unmarshal (Some ?item) = Inr data" "fmdom data = fmdom ?item"
      "\<forall>key p. fmlookup ?item key = Some p \<longrightarrow>
                 (\<exists>y. fmlookup data key = Some y \<and> getItemValue p = Inr y)"
    by blast
  have "fmlookup ?item ''name''
      = Some (Some (AttributeValue None (Some ''Alice'') None [] None [] [] [] []))"
    by simp
  with data(3) obtain y where "fmlookup data ''name'' = Some y"
    "getItemValue (Some (AttributeValue None (Some ''Alice'') None [] None [] [] [] [])) = Inr y"
    by blast
  then have name: "fmlookup data ''name'' = Some (VString ''Alice'')"
    by simp
  have "fmlookup ?item ''age''
      = Some (Some (AttributeValue (Some ''30'') None None [] None [] [] [] []))"
    by simp
  with data(3) obtain z where "fmlookup data ''age'' = Some z"
    "getItemValue (Some (AttributeValue (Some ''30'') None None [] None [] [] [] [])) = Inr z"
    by blast
  then have age: "fmlookup data ''age'' = Some (VNumber (NInt 30))"
    by (simp add: atoi_eval)
  from data(2) have "fmdom data = {|''name'', ''age''|}"
    by simp
  with hyp data(1) name age show ?thesis
    by blast
qed

subsection \<open>Encoding a record and reading it back\<close>

text \<open>
  Apart from maps of another type, a value that the type switch does not name is encoded as
  the empty AttributeValue.
\<close>

lemma createAttributeValue_unmatched:
  "Kind_of v \<noteq> KMap \<Longrightarrow>
   (case v of VNil \<Rightarrow> True | VIntPtrs xs \<Rightarrow> True | VStringPtrs xs \<Rightarrow> True | VSlice xs \<Rightarrow> True
      | VOther k \<Rightarrow> True | _ \<Rightarrow> False) \<Longrightarrow>
   createAttributeValue ff v = Inr unset"
  by (cases v) (simp_all del: Marshal.simps)

text \<open>
  When they return, \<^verbatim>\<open>Marshal\<close> and \<^verbatim>\<open>Unmarshal\<close> return the map of the per-entry results:
  the same keys, no entry dropped (an entry encoded as the empty AttributeValue included).
\<close>

lemma Marshal_Inr_iff:
  "Marshal ff r = Inr d \<longleftrightarrow>
     fmpred (\<lambda>key v. \<not> isl (createAttributeValue ff v)) r
     \<and> d = fmmap (\<lambda>v. Some (projr (createAttributeValue ff v))) r"
  by (auto simp add: Let_def fmap.map_comp comp_def simp del: createAttributeValue.simps)


lemma Marshal_entries:
  assumes "Marshal ff r = Inr d"
  shows "fmdom d = fmdom r"
    and "fmlookup r key = Some v \<Longrightarrow>
      \<exists>av. createAttributeValue ff v = Inr av \<and> fmlookup d key = Some (Some av)"
proof -
  from assms have ok: "fmpred (\<lambda>key v. \<not> isl (createAttributeValue ff v)) r"
    and d: "d = fmmap (\<lambda>v. Some (projr (createAttributeValue ff v))) r"
    by (simp_all only: Marshal_Inr_iff)
  show "fmdom d = fmdom r"
    by (simp only: d fmdom_map)
  show "\<exists>av. createAttributeValue ff v = Inr av \<and> fmlookup d key = Some (Some av)"
    if "fmlookup r key = Some v"
  proof -
    from ok that have "\<not> isl (createAttributeValue ff v)"
      by (auto simp: fmpred_iff simp del: createAttributeValue.simps)
    then obtain av where "createAttributeValue ff v = Inr av"
      by (cases "createAttributeValue ff v") (simp_all del: createAttributeValue.simps)
    then show ?thesis
      using that by (simp add: d del: createAttributeValue.simps)
  qed
qed









end
